theory Spec2Isabelle
  imports Complex_Main "HOL-Library.Sublist" "HOL-Library.Char_ord" "HOL-Library.List_Lexorder"
    "HOL-Library.Multiset"
begin

section \<open>The hospital patient analytics dashboard (finalapp.py)\<close>

text \<open>
  The program is one script over pandas: it loads \<^verbatim>\<open>patients.csv\<close>, derives the
  length of stay, filters by the sidebar selections, computes the aggregates of four
  tabs and a footer, and exports the searched view as CSV. The script is embedded stage
  by stage; the pandas operations it calls are embedded by what they compute on the
  values the script gives them.

  Modelling decisions, all of them about the data and none about the script:
  \<^item> a data frame is its list of column names and its list of rows; a row is a record
    with one field per column the script reads;
  \<^item> \<^verbatim>\<open>patient_id\<close>, \<^verbatim>\<open>age\<close> and \<^verbatim>\<open>satisfaction\<close> are integer columns without missing
    values, \<^verbatim>\<open>service\<close> is a string column without missing values, \<^verbatim>\<open>name\<close> is a
    string column that may hold missing values (\<open>None\<close> is pandas' NaN);
  \<^item> a float is a real number and NaN is \<open>None\<close>: means and the correlation are
    computed in exact arithmetic; the correlation is also given as NumPy computes it,
    every operation rounded to a 64-bit float;
  \<^item> strings are Latin-1 text, one \<open>char\<close> per character (the code points 0 to 255);
    the letters with an upper and a lower case are A to Z and, from \<^verbatim>\<open>U+00C0\<close> to
    \<^verbatim>\<open>U+00DE\<close> without the multiplication sign, the accented capitals;
  \<^item> a CSV file is its header and its rows of cells, that is the text after the
    reader has split it into cells and inferred the column types; the file has the
    seven columns the script reads;
  \<^item> timestamps are a type parameter: parsing, printing and subtracting them are
    pandas' own and are taken as parameters, as is the one default of pandas the
    script relies on that changed between versions (the record \<open>library\<close>).
  The charts, the table display and \<^verbatim>\<open>describe()\<close> only render values and are left out.
\<close>

subsection \<open>Errors\<close>

datatype py_error =
    KeyError            \<comment> \<open>a label that is not in the index\<close>
  | ValueError          \<comment> \<open>\<^verbatim>\<open>int()\<close> of NaN\<close>
  | IndexError          \<comment> \<open>a position that is out of bounds\<close>
  | DateParseError      \<comment> \<open>\<^verbatim>\<open>pd.to_datetime\<close> on a string that is no date\<close>
  | ReError             \<comment> \<open>\<^verbatim>\<open>re.error\<close>: a search string that is no regular expression\<close>

subsection \<open>Data frames\<close>

record 'ts patient =
  patient_id :: int
  name :: "string option"
  age :: int
  service :: string
  arrival_date :: 'ts
  departure_date :: 'ts
  satisfaction :: int
  length_of_stay :: int
  age_group :: "string option"

record 'ts frame =
  columns :: "string list"
  rows :: "'ts patient list"

text \<open>
  \<^verbatim>\<open>df[c] = ...\<close> replaces the column \<open>c\<close> where it stands, or appends it as the last
  column when the frame has no such column.
\<close>

definition set_column :: "string \<Rightarrow> string list \<Rightarrow> string list" where
  "set_column c cols = (if c \<in> set cols then cols else cols @ [c])"

subsection \<open>The sidebar filter (lines 63 to 68)\<close>

text \<open>
  \<^verbatim>\<open>
  filtered_df = df[
      (df['service'].isin(services)) &
      (df['age'] >= age_range[0]) &
      (df['age'] <= age_range[1]) &
      (df['satisfaction'] >= min_satisfaction)
  ]
  \<close>
  Each comparison yields a boolean column, \<^verbatim>\<open>&\<close> combines them row by row, and
  indexing by the mask builds a new frame of the rows whose mask entry is true.
\<close>

definition isin :: "'a list \<Rightarrow> 'a list \<Rightarrow> bool list" where
  "isin col vals = map (\<lambda>v. v \<in> set vals) col"

definition ge_col :: "int list \<Rightarrow> int \<Rightarrow> bool list" where
  "ge_col col k = map (\<lambda>v. k \<le> v) col"

definition le_col :: "int list \<Rightarrow> int \<Rightarrow> bool list" where
  "le_col col k = map (\<lambda>v. v \<le> k) col"

definition and_mask :: "bool list \<Rightarrow> bool list \<Rightarrow> bool list" where
  "and_mask m1 m2 = map (\<lambda>(a, b). a \<and> b) (zip m1 m2)"

definition boolean_index :: "'ts frame \<Rightarrow> bool list \<Rightarrow> 'ts frame" where
  "boolean_index f msk = f\<lparr>rows := map fst (filter snd (zip (rows f) msk))\<rparr>"

definition filtered_df :: "'ts frame \<Rightarrow> string list \<Rightarrow> int \<times> int \<Rightarrow> int \<Rightarrow> 'ts frame" where
  "filtered_df df services age_range min_satisfaction =
     boolean_index df
       (and_mask
         (and_mask
           (and_mask (isin (map service (rows df)) services)
                     (ge_col (map age (rows df)) (fst age_range)))
           (le_col (map age (rows df)) (snd age_range)))
         (ge_col (map satisfaction (rows df)) min_satisfaction))"

text \<open>The criteria as the specification words them: one predicate per record.\<close>

definition passes :: "string list \<Rightarrow> int \<times> int \<Rightarrow> int \<Rightarrow> 'ts patient \<Rightarrow> bool" where
  "passes services age_range min_satisfaction r \<longleftrightarrow>
     service r \<in> set services \<and> fst age_range \<le> age r \<and> age r \<le> snd age_range \<and>
     min_satisfaction \<le> satisfaction r"

subsection \<open>Age groups (lines 173 to 175)\<close>

text \<open>
  \<^verbatim>\<open>
  pd.cut(filtered_df['age'], bins=[0, 18, 35, 50, 65, 100],
         labels=['0-18', '19-35', '36-50', '51-65', '65+'])
  \<close>
  \<^verbatim>\<open>pd.cut\<close> with its defaults (\<^verbatim>\<open>right=True\<close>, \<^verbatim>\<open>include_lowest=False\<close>) finds the
  position of a value among the sorted bin edges with \<^verbatim>\<open>searchsorted(side='left')\<close>,
  the number of edges below the value. Position 0 (at or below the first edge) and
  position \<open>length bins\<close> (above the last edge) are outside every bin and give NaN;
  position \<open>i\<close> gives the label of the bin \<open>(bins[i-1], bins[i]]\<close>. The script's edges
  increase and its labels are one fewer than its edges, as \<^verbatim>\<open>pd.cut\<close> requires.
\<close>

definition searchsorted_left :: "int list \<Rightarrow> int \<Rightarrow> nat" where
  "searchsorted_left bins x = length (filter (\<lambda>b. b < x) bins)"

definition cut :: "int list \<Rightarrow> string list \<Rightarrow> int \<Rightarrow> string option" where
  "cut bins labels x =
     (let ids = searchsorted_left bins x
      in if ids = 0 \<or> ids = length bins then None else Some (labels ! (ids - 1)))"

definition age_bins :: "int list" where
  "age_bins = [0, 18, 35, 50, 65, 100]"

definition age_labels :: "string list" where
  "age_labels = [''0-18'', ''19-35'', ''36-50'', ''51-65'', ''65+'']"

definition age_group_of :: "int \<Rightarrow> string option" where
  "age_group_of a = cut age_bins age_labels a"

subsection \<open>Series statistics\<close>

text \<open>
  \<^verbatim>\<open>Series.mean()\<close>: the sum over the count; NaN on an empty series (no exception).
\<close>

definition mean :: "int list \<Rightarrow> real option" where
  "mean xs = (if xs = [] then None else Some (real_of_int (sum_list xs) / real (length xs)))"


text \<open>
  \<^verbatim>\<open>Series.mode()\<close>: the values whose count is the highest count, returned sorted in
  ascending order. Strings are ordered as Python orders them, lexicographically by
  character code.
\<close>

definition mode :: "'a::linorder list \<Rightarrow> 'a list" where
  "mode xs = sort (filter (\<lambda>x. \<forall>y \<in> set xs. count_list xs y \<le> count_list xs x) (remdups xs))"

text \<open>
  \<^verbatim>\<open>np.argsort\<close> with the default \<^verbatim>\<open>kind='quicksort'\<close>: an order of the positions that
  puts the values in ascending order. This sort is not stable: the order in which it
  leaves the positions of equal values is the implementation's, and nothing in the
  script fixes it. It is the parameter \<open>tie\<close>: of the array it sorts and a position, a
  rank; positions of equal values come out by ascending rank (and by position where the
  ranks are equal, as a stable sort leaves them). Every order that sorts the values is
  the outcome for some \<open>tie\<close> (lemma \<open>argsort_any\<close>).
\<close>

definition argsort :: "('v list \<Rightarrow> nat \<Rightarrow> nat) \<Rightarrow> 'v::linorder list \<Rightarrow> nat list" where
  "argsort tie vs = sort_key (\<lambda>i. vs ! i) (sort_key (tie vs) [0..<length vs])"

text \<open>The rank that gives a chosen order \<open>p\<close> of the positions: the place of a position in \<open>p\<close>.\<close>

definition position_in :: "nat list \<Rightarrow> nat \<Rightarrow> nat" where
  "position_in p i = length (takeWhile (\<lambda>j. j \<noteq> i) p)"

text \<open>
  \<^verbatim>\<open>Series.sort_values(ascending=False)\<close> orders by \<^verbatim>\<open>nargsort\<close>: the values that are not
  NaN and their positions are reversed, \<^verbatim>\<open>argsort\<close> orders them, and the outcome is
  reversed again; the positions of the NaN values follow.
\<close>

definition nargsort_desc :: "('v list \<Rightarrow> nat \<Rightarrow> nat) \<Rightarrow> 'v::linorder option list \<Rightarrow> nat list" where
  "nargsort_desc tie items =
     (let nonnan_idx = filter (\<lambda>i. items ! i \<noteq> None) [0..<length items];
          nan_idx = filter (\<lambda>i. items ! i = None) [0..<length items];
          nonnan = rev (map (\<lambda>i. the (items ! i)) nonnan_idx);
          idx = rev nonnan_idx
      in rev (map (\<lambda>j. idx ! j) (argsort tie nonnan)) @ nan_idx)"

definition sort_values_desc ::
  "('v list \<Rightarrow> nat \<Rightarrow> nat) \<Rightarrow> ('k \<times> 'v::linorder option) list \<Rightarrow> ('k \<times> 'v option) list" where
  "sort_values_desc tie s = map (\<lambda>i. s ! i) (nargsort_desc tie (map snd s))"

text \<open>
  \<^verbatim>\<open>groupby(key)[val].mean()\<close> on an ordinary column: one entry per distinct key of the
  rows, the keys in ascending order.
\<close>

definition groupby_mean ::
  "('r \<Rightarrow> 'k::linorder) \<Rightarrow> ('r \<Rightarrow> int) \<Rightarrow> 'r list \<Rightarrow> ('k \<times> real option) list" where
  "groupby_mean key val rs =
     map (\<lambda>k. (k, mean (map val (filter (\<lambda>r. key r = k) rs)))) (sort (remdups (map key rs)))"

text \<open>
  \<^verbatim>\<open>groupby(key)[val].mean()\<close> on a categorical column (what \<^verbatim>\<open>pd.cut\<close> returns): the
  groups are categories, in the order of the categories; rows whose key is NaN are in
  no group. The script does not pass \<^verbatim>\<open>observed\<close>, so the default of the installed
  pandas applies: with \<^verbatim>\<open>observed=False\<close> (pandas 1 and 2) every category has an entry,
  NaN for a category no row has; with \<^verbatim>\<open>observed=True\<close> (pandas 3) only the categories
  that some row has.
\<close>

definition groupby_categorical_mean ::
  "bool \<Rightarrow> 'k list \<Rightarrow> ('r \<Rightarrow> 'k option) \<Rightarrow> ('r \<Rightarrow> int) \<Rightarrow> 'r list \<Rightarrow> ('k \<times> real option) list" where
  "groupby_categorical_mean observed cats key val rs =
     map (\<lambda>c. (c, mean (map val (filter (\<lambda>r. key r = Some c) rs))))
       (if observed then filter (\<lambda>c. \<exists>r \<in> set rs. key r = Some c) cats else cats)"


text \<open>
  \<^verbatim>\<open>Series.corr(other)\<close>, Pearson's coefficient. An empty series gives NaN at once.
  Otherwise \<^verbatim>\<open>np.corrcoef\<close> computes the covariance matrix with \<open>n - 1\<close> degrees of
  freedom (a division by zero for one row, hence NaN), divides the covariance by the
  square root of each variance in turn (\<open>0 / 0\<close> is NaN), and clips the quotient to
  \<open>[-1, 1]\<close>. A division by zero of a non-zero numerator cannot arise: the covariance
  is zero when a variance is.
\<close>

definition np_average :: "int list \<Rightarrow> real" where
  "np_average xs = real_of_int (sum_list xs) / real (length xs)"

definition np_cov :: "int list \<Rightarrow> int list \<Rightarrow> real option" where
  "np_cov xs ys =
     (if length xs < 2 then None
      else Some ((\<Sum>(x, y) \<leftarrow> zip xs ys.
                    (real_of_int x - np_average xs) * (real_of_int y - np_average ys))
                 / real (length xs - 1)))"

definition nan_div :: "real option \<Rightarrow> real option \<Rightarrow> real option" where
  "nan_div a b =
     (case (a, b) of
        (Some x, Some y) \<Rightarrow> if y = 0 then None else Some (x / y)
      | _ \<Rightarrow> None)"

definition nan_sqrt :: "real option \<Rightarrow> real option" where
  "nan_sqrt a = map_option sqrt a"

definition np_clip :: "real \<Rightarrow> real \<Rightarrow> real \<Rightarrow> real" where
  "np_clip lo hi x = min hi (max lo x)"

definition pearson :: "int list \<Rightarrow> int list \<Rightarrow> real option" where
  "pearson xs ys =
     (if xs = [] then None
      else map_option (np_clip (-1) 1)
             (nan_div (nan_div (np_cov xs ys) (nan_sqrt (np_cov xs xs)))
                      (nan_sqrt (np_cov ys ys))))"

subsection \<open>The correlation in 64-bit floating point\<close>

text \<open>
  NumPy computes the correlation in IEEE 754 binary64. A finite float is the rational
  number it denotes and NaN is \<open>None\<close>. The result of an operation is the exact result
  rounded to 53 significant bits, to the nearest float and to the one with an even
  last bit when two are equally near. The exponent range is not bounded here: overflow,
  infinities and subnormal numbers are left out (the values computed from columns of
  64-bit integers stay far from both ends of the range).

  \<open>ilog2 n\<close> is the position of the leading bit of \<open>n\<close>, and \<open>exponent n d\<close> the exponent
  \<open>e\<close> of the fraction \<open>n / d\<close>, with \<open>2 ^ e \<le> \<bar>n / d\<bar> < 2 ^ (e + 1)\<close>.
\<close>

definition pow2 :: "int \<Rightarrow> rat" where
  "pow2 k = (if 0 \<le> k then 2 ^ nat k else 1 / 2 ^ nat (- k))"

function ilog2 :: "int \<Rightarrow> int" where
  "ilog2 n = (if n < 2 then 0 else 1 + ilog2 (n div 2))"
  by pat_completeness auto
termination by (relation "measure nat") auto

declare ilog2.simps [simp del]

definition exponent :: "int \<Rightarrow> int \<Rightarrow> int" where
  "exponent n d =
     (if d * 2 ^ nat (ilog2 \<bar>n\<bar> - ilog2 d) \<le> \<bar>n\<bar> * 2 ^ nat (ilog2 d - ilog2 \<bar>n\<bar>)
      then ilog2 \<bar>n\<bar> - ilog2 d else ilog2 \<bar>n\<bar> - ilog2 d - 1)"

text \<open>
  \<open>round_half_even n d\<close> is the integer nearest to \<open>n / d\<close>, the even one of two that are
  equally near; \<open>f64 q\<close> is the float nearest to \<open>q\<close>: the fraction is scaled to 53 bits
  before the binary point, rounded to an integer, and scaled back.
\<close>

definition round_half_even :: "int \<Rightarrow> int \<Rightarrow> int" where
  "round_half_even n d =
     (if 2 * (n mod d) < d then n div d
      else if d < 2 * (n mod d) then n div d + 1
      else if even (n div d) then n div d else n div d + 1)"

definition scaled :: "int \<Rightarrow> int \<Rightarrow> int \<Rightarrow> rat" where
  "scaled e n d =
     of_int (round_half_even (n * 2 ^ nat (52 - e)) (d * 2 ^ nat (e - 52))) * pow2 (e - 52)"

definition f64 :: "rat \<Rightarrow> rat" where
  "f64 q = (case quotient_of q of (n, d) \<Rightarrow> if n = 0 then 0 else scaled (exponent n d) n d)"

text \<open>
  \<^verbatim>\<open>np.sqrt\<close>: the square root rounded to the nearest float, NaN for a negative number.
  The fraction is scaled by a power of four so that the integer part \<open>t\<close> of its root
  has 54 bits: the last bit of \<open>t\<close> and whether \<open>t\<close> is the exact root decide the
  rounding to 53 bits.
\<close>

definition isqrt_step :: "int \<Rightarrow> int \<Rightarrow> int" where
  "isqrt_step n s = (if (2 * s + 1) * (2 * s + 1) \<le> n then 2 * s + 1 else 2 * s)"

function isqrt :: "int \<Rightarrow> int" where
  "isqrt n = (if n < 4 then (if n \<le> 0 then 0 else 1) else isqrt_step n (isqrt (n div 4)))"
  by pat_completeness auto
termination by (relation "measure nat") auto

declare isqrt.simps [simp del]

definition round_sqrt :: "int \<Rightarrow> int \<Rightarrow> int \<Rightarrow> int" where
  "round_sqrt n d t =
     (if even t then t div 2
      else if t * t * d = n \<and> even (t div 2) then t div 2 else t div 2 + 1)"

definition sqrt_scaled :: "int \<Rightarrow> int \<Rightarrow> int \<Rightarrow> rat" where
  "sqrt_scaled k n d = of_int (round_sqrt n d (isqrt (n div d))) * pow2 (1 - k)"

definition sqrt_shift :: "int \<Rightarrow> int \<Rightarrow> int \<Rightarrow> rat" where
  "sqrt_shift k n d = sqrt_scaled k (n * 4 ^ nat k) (d * 4 ^ nat (- k))"

definition f64_sqrt :: "rat \<Rightarrow> rat option" where
  "f64_sqrt q =
     (case quotient_of q of (n, d) \<Rightarrow>
        if n < 0 then None
        else if n = 0 then Some 0
        else Some (sqrt_shift ((107 - exponent n d) div 2) n d))"

text \<open>
  \<^verbatim>\<open>Series.corr\<close> converts the two columns to floats and calls \<^verbatim>\<open>np.corrcoef\<close>, which
  takes the covariance matrix of \<^verbatim>\<open>np.cov\<close> (the columns minus their averages, their dot
  products, times \<open>1 / (n - 1)\<close>), divides it by the square roots of its diagonal, first
  along the rows and then along the columns, and clips it; \<^verbatim>\<open>Series.corr\<close> reads the
  entry of the first column against the second. That entry is the covariance divided by
  the standard deviation of the first column, and the quotient divided by the standard
  deviation of the second. Every step below is the step of \<open>pearson\<close> above, rounded.

  NumPy adds the terms of a sum in an order of its own (pairwise, and the order of the
  linear algebra routine in the dot product); here they are added in sequence. Where
  every partial sum is a float, as for the columns evaluated below, the order makes no
  difference.
\<close>

definition to_float :: "int list \<Rightarrow> rat list" where
  "to_float xs = map (\<lambda>x. f64 (of_int x)) xs"

definition f64_sum :: "rat list \<Rightarrow> rat" where
  "f64_sum xs = foldl (\<lambda>s x. f64 (s + x)) 0 xs"

definition np_average_f64 :: "rat list \<Rightarrow> rat" where
  "np_average_f64 xs = f64 (f64_sum xs / of_nat (length xs))"

definition subtract_f64 :: "rat \<Rightarrow> rat list \<Rightarrow> rat list" where
  "subtract_f64 a xs = map (\<lambda>x. f64 (x - a)) xs"

definition np_dot_f64 :: "rat list \<Rightarrow> rat list \<Rightarrow> rat" where
  "np_dot_f64 xs ys = f64_sum (map (\<lambda>(x, y). f64 (x * y)) (zip xs ys))"

definition np_cov_f64 :: "rat list \<Rightarrow> rat list \<Rightarrow> rat option" where
  "np_cov_f64 xs ys =
     (if length xs < 2 then None
      else Some (f64 (np_dot_f64 (subtract_f64 (np_average_f64 xs) xs)
                                 (subtract_f64 (np_average_f64 ys) ys)
                      * f64 (1 / of_nat (length xs - 1)))))"

definition nan_div_f64 :: "rat option \<Rightarrow> rat option \<Rightarrow> rat option" where
  "nan_div_f64 a b =
     (case (a, b) of
        (Some x, Some y) \<Rightarrow> if y = 0 then None else Some (f64 (x / y))
      | _ \<Rightarrow> None)"

definition nan_sqrt_f64 :: "rat option \<Rightarrow> rat option" where
  "nan_sqrt_f64 a = (case a of None \<Rightarrow> None | Some x \<Rightarrow> f64_sqrt x)"

definition np_clip_f64 :: "rat \<Rightarrow> rat \<Rightarrow> rat \<Rightarrow> rat" where
  "np_clip_f64 lo hi x = min hi (max lo x)"

definition pearson_f64 :: "int list \<Rightarrow> int list \<Rightarrow> rat option" where
  "pearson_f64 xs ys =
     (if xs = [] then None
      else map_option (np_clip_f64 (-1) 1)
             (nan_div_f64 (nan_div_f64 (np_cov_f64 (to_float xs) (to_float ys))
                                       (nan_sqrt_f64 (np_cov_f64 (to_float xs) (to_float xs))))
                          (nan_sqrt_f64 (np_cov_f64 (to_float ys) (to_float ys)))))"

subsection \<open>What the libraries leave open\<close>

text \<open>
  What the script uses of pandas' timestamps: \<^verbatim>\<open>pd.to_datetime\<close> on a string, the text
  \<^verbatim>\<open>to_csv\<close> prints for a timestamp, and \<^verbatim>\<open>(b - a).dt.days\<close>, the whole days from \<open>a\<close>
  to \<open>b\<close>; the default of \<^verbatim>\<open>observed\<close> in \<^verbatim>\<open>groupby\<close>, which the installed version of
  pandas decides; the order in which the default sort leaves equal values, one
  for arrays of floats (the group means) and one for arrays of integers (the counts);
  and the regular expressions of Python's \<^verbatim>\<open>re\<close> beyond the ordinary characters and the
  dot: for a pattern with one of \<^verbatim>\<open>\ ^ $ * + ? { } [ ] | ( )\<close>, what
  \<^verbatim>\<open>re.compile(pattern, re.IGNORECASE)\<close> gives, \<open>None\<close> when it raises \<^verbatim>\<open>re.error\<close> and
  otherwise the test whether \<^verbatim>\<open>search\<close> finds a match in a string.
\<close>

record 'ts library =
  to_datetime :: "string \<Rightarrow> py_error + 'ts"
  format_ts :: "'ts \<Rightarrow> string"
  days_between :: "'ts \<Rightarrow> 'ts \<Rightarrow> int"
  groupby_observed :: bool
  tie_order :: "real list \<Rightarrow> nat \<Rightarrow> nat"
  tie_order_counts :: "nat list \<Rightarrow> nat \<Rightarrow> nat"
  re_other :: "string \<Rightarrow> (string \<Rightarrow> bool) option"

subsection \<open>Tab 1: overview (lines 84 to 125)\<close>




text \<open>
  \<^verbatim>\<open>most_common_service = filtered_df['service'].mode()[0]\<close>: the mode is a series
  indexed from 0, and \<^verbatim>\<open>[0]\<close> looks the label 0 up; on an empty series there is no
  such label and the lookup raises KeyError.
\<close>

definition most_common_service :: "'ts frame \<Rightarrow> py_error + string" where
  "most_common_service f =
     (case mode (map service (rows f)) of [] \<Rightarrow> Inl KeyError | m # _ \<Rightarrow> Inr m)"

text \<open>
  \<^verbatim>\<open>filtered_df.groupby('service')['satisfaction'].mean().sort_values(ascending=False)\<close>
\<close>

definition service_satisfaction :: "'ts library \<Rightarrow> 'ts frame \<Rightarrow> (string \<times> real option) list" where
  "service_satisfaction lib f =
     sort_values_desc (tie_order lib) (groupby_mean service satisfaction (rows f))"

text \<open>The display order the code gives the service means: no mean before a greater one.\<close>

definition descending_mean :: "('k \<times> real option) \<Rightarrow> ('k \<times> real option) \<Rightarrow> bool" where
  "descending_mean a b =
     (case (snd a, snd b) of (Some x, Some y) \<Rightarrow> y \<le> x | _ \<Rightarrow> False)"

text \<open>
  The specification's wording of the display order of group means: by descending mean,
  then by group label.
\<close>

definition before_in_display :: "('k::linorder \<times> real option) \<Rightarrow> ('k \<times> real option) \<Rightarrow> bool" where
  "before_in_display a b =
     (case (snd a, snd b) of
        (Some x, Some y) \<Rightarrow> y < x \<or> (x = y \<and> fst a < fst b)
      | _ \<Rightarrow> False)"


text \<open>
  The specification's wording of the mode: of the values with the highest frequency,
  the one that occurs first in the input.
\<close>

definition mode_first_occurrence :: "'a list \<Rightarrow> 'a option" where
  "mode_first_occurrence xs =
     find (\<lambda>x. \<forall>y \<in> set xs. count_list xs y \<le> count_list xs x) xs"

subsection \<open>Tab 2: correlation (line 144)\<close>

definition correlation :: "'ts frame \<Rightarrow> real option" where
  "correlation f = pearson (map length_of_stay (rows f)) (map satisfaction (rows f))"

subsection \<open>Tab 3: demographics (lines 173 to 177)\<close>

text \<open>
  \<^verbatim>\<open>filtered_df['age_group'] = pd.cut(filtered_df['age'], ...)\<close> assigns a column of the
  frame that the variable \<^verbatim>\<open>filtered_df\<close> holds: the frame is updated in place. The
  function returns the frame as it is after the assignment.
\<close>

definition assign_age_group :: "'ts frame \<Rightarrow> 'ts frame" where
  "assign_age_group f =
     f\<lparr>columns := set_column ''age_group'' (columns f),
       rows := map (\<lambda>r. r\<lparr>age_group := age_group_of (age r)\<rparr>) (rows f)\<rparr>"

text \<open>\<^verbatim>\<open>filtered_df.groupby('age_group')['satisfaction'].mean()\<close>\<close>

definition age_group_satisfaction :: "bool \<Rightarrow> 'ts frame \<Rightarrow> (string \<times> real option) list" where
  "age_group_satisfaction observed f =
     groupby_categorical_mean observed age_labels age_group satisfaction (rows f)"

subsection \<open>Tab 4: search and export (lines 192 to 206)\<close>















subsection \<open>CSV files and the record store (lines 17 to 24, line 206)\<close>










subsection \<open>Footer (line 221)\<close>


subsection \<open>The sidebar (lines 40 to 60)\<close>



subsection \<open>The script, top to bottom\<close>






subsection \<open>A timestamp library for calendar dates\<close>

text \<open>
  One instance of the library parameters, for running the model: a timestamp is a
  calendar date (year, month, day); it is printed as \<^verbatim>\<open>YYYY-MM-DD\<close>, the form \<^verbatim>\<open>to_csv\<close>
  gives a column of dates, and only that form is read. The years are the whole years
  of the range of pandas' timestamps, 1678 to 2261. The \<^verbatim>\<open>groupby\<close> default is that of
  pandas 2.
\<close>

type_synonym ymd = "nat \<times> nat \<times> nat"

definition digit_char :: "nat \<Rightarrow> char" where
  "digit_char n = char_of (48 + n)"

definition is_digit :: "char \<Rightarrow> bool" where
  "is_digit c \<longleftrightarrow> CHR ''0'' \<le> c \<and> c \<le> CHR ''9''"

definition number_of :: "string \<Rightarrow> nat option" where
  "number_of cs =
     (if cs \<noteq> [] \<and> list_all is_digit cs
      then Some (foldl (\<lambda>n c. 10 * n + (of_char c - 48)) 0 cs) else None)"

definition two_digits :: "nat \<Rightarrow> string" where
  "two_digits n = [digit_char (n div 10 mod 10), digit_char (n mod 10)]"

definition four_digits :: "nat \<Rightarrow> string" where
  "four_digits n =
     [digit_char (n div 1000 mod 10), digit_char (n div 100 mod 10),
      digit_char (n div 10 mod 10), digit_char (n mod 10)]"

definition is_leap :: "nat \<Rightarrow> bool" where
  "is_leap y \<longleftrightarrow> y mod 4 = 0 \<and> (y mod 100 \<noteq> 0 \<or> y mod 400 = 0)"

definition days_in_month :: "nat \<Rightarrow> nat \<Rightarrow> nat" where
  "days_in_month y m =
     (if m = 2 then (if is_leap y then 29 else 28)
      else if m = 4 \<or> m = 6 \<or> m = 9 \<or> m = 11 then 30 else 31)"

definition valid_ymd :: "ymd \<Rightarrow> bool" where
  "valid_ymd t \<longleftrightarrow>
     (case t of (y, m, d) \<Rightarrow>
        1678 \<le> y \<and> y \<le> 2261 \<and> 1 \<le> m \<and> m \<le> 12 \<and> 1 \<le> d \<and> d \<le> days_in_month y m)"

definition iso_to_datetime :: "string \<Rightarrow> py_error + ymd" where
  "iso_to_datetime s =
     (if length s = 10 \<and> s ! 4 = CHR ''-'' \<and> s ! 7 = CHR ''-'' then
        (case (number_of (take 4 s), number_of (take 2 (drop 5 s)), number_of (drop 8 s)) of
           (Some y, Some m, Some d) \<Rightarrow>
             if valid_ymd (y, m, d) then Inr (y, m, d) else Inl DateParseError
         | _ \<Rightarrow> Inl DateParseError)
      else Inl DateParseError)"

definition iso_format :: "ymd \<Rightarrow> string" where
  "iso_format t =
     (case t of (y, m, d) \<Rightarrow> four_digits y @ ''-'' @ two_digits m @ ''-'' @ two_digits d)"

text \<open>The day number of a date of the Gregorian calendar, counted from 1970-01-01.\<close>

definition days_from_civil :: "ymd \<Rightarrow> int" where
  "days_from_civil t =
     (case t of (y, m, d) \<Rightarrow>
        (let y' = (if m \<le> 2 then int y - 1 else int y);
             era = y' div 400;
             yoe = y' - era * 400;
             mp = (int m + 9) mod 12;
             doy = (153 * mp + 2) div 5 + int d - 1;
             doe = yoe * 365 + yoe div 4 - yoe div 100 + doy
         in era * 146097 + doe - 719468))"

definition iso_dates :: "ymd library" where
  "iso_dates =
     \<lparr>to_datetime = iso_to_datetime, format_ts = iso_format,
      days_between = (\<lambda>a b. days_from_civil b - days_from_civil a),
      groupby_observed = False,
      tie_order = (\<lambda>vs i. 0), tie_order_counts = (\<lambda>vs i. 0),
      re_other = (\<lambda>pat. None)\<rparr>"

subsection \<open>Sample data\<close>

definition sample_header :: "string list" where
  "sample_header =
     [''patient_id'', ''name'', ''age'', ''service'', ''arrival_date'', ''departure_date'',
      ''satisfaction'']"


definition sample_al :: "ymd patient" where
  "sample_al =
     \<lparr>patient_id = 1, name = Some ''Al'', age = 10, service = ''B'',
      arrival_date = (2024, 1, 1), departure_date = (2024, 1, 3),
      satisfaction = 10, length_of_stay = 2, age_group = None\<rparr>"

definition sample_anon :: "ymd patient" where
  "sample_anon =
     \<lparr>patient_id = 2, name = None, age = 40, service = ''A'',
      arrival_date = (2024, 2, 27), departure_date = (2024, 3, 1),
      satisfaction = 90, length_of_stay = 3, age_group = None\<rparr>"

definition sample_df :: "ymd frame" where
  "sample_df = \<lparr>columns = sample_header @ [''length_of_stay''], rows = [sample_al, sample_anon]\<rparr>"

section \<open>Theorems\<close>

subsection \<open>The filter\<close>

lemma boolean_index_map:
  "map fst (filter snd (zip xs (map P xs))) = filter P xs"
  by (induction xs) auto

lemma and_mask_map: "and_mask (map P xs) (map Q xs) = map (\<lambda>x. P x \<and> Q x) xs"
  by (induction xs) (simp_all add: and_mask_def)

lemma rows_filtered_df:
  "rows (filtered_df df services age_range min_satisfaction) =
   filter (passes services age_range min_satisfaction) (rows df)"
proof -
  have "and_mask (and_mask (and_mask (isin (map service (rows df)) services)
                     (ge_col (map age (rows df)) (fst age_range)))
           (le_col (map age (rows df)) (snd age_range)))
         (ge_col (map satisfaction (rows df)) min_satisfaction)
        = map (passes services age_range min_satisfaction) (rows df)"
    by (simp add: isin_def ge_col_def le_col_def and_mask_map passes_def[abs_def] comp_def)
  then show ?thesis
    by (simp add: filtered_df_def boolean_index_def boolean_index_map)
qed


text \<open>
  Claim C2. A record is in the filtered output iff it is in the input, its service is
  among the selected services, its age is within the inclusive bounds and its
  satisfaction is at least the floor; with no service selected nothing passes; the
  output is the input with the failing records left out, so the relative order is
  kept; and when no record passes, the result is the frame with no rows (a value, not
  an error: the filter has no failing branch).
\<close>

theorem filtered_df_spec:
  "rows (filtered_df df services age_range min_satisfaction) =
     filter (passes services age_range min_satisfaction) (rows df)
   \<and> (\<forall>r. r \<in> set (rows (filtered_df df services age_range min_satisfaction)) \<longleftrightarrow>
          r \<in> set (rows df) \<and> service r \<in> set services \<and>
          fst age_range \<le> age r \<and> age r \<le> snd age_range \<and> min_satisfaction \<le> satisfaction r)
   \<and> (services = [] \<longrightarrow> rows (filtered_df df services age_range min_satisfaction) = [])
   \<and> subseq (rows (filtered_df df services age_range min_satisfaction)) (rows df)
   \<and> ((\<forall>r \<in> set (rows df). \<not> passes services age_range min_satisfaction r) \<longrightarrow>
        filtered_df df services age_range min_satisfaction = df\<lparr>rows := []\<rparr>)"
proof (intro conjI allI impI)
  show "rows (filtered_df df services age_range min_satisfaction) =
     filter (passes services age_range min_satisfaction) (rows df)"
    by (rule rows_filtered_df)
next
  fix r
  show "r \<in> set (rows (filtered_df df services age_range min_satisfaction)) \<longleftrightarrow>
          r \<in> set (rows df) \<and> service r \<in> set services \<and>
          fst age_range \<le> age r \<and> age r \<le> snd age_range \<and> min_satisfaction \<le> satisfaction r"
    by (simp add: rows_filtered_df passes_def)
next
  assume "services = []"
  then show "rows (filtered_df df services age_range min_satisfaction) = []"
    by (simp add: rows_filtered_df passes_def)
next
  show "subseq (rows (filtered_df df services age_range min_satisfaction)) (rows df)"
    by (simp add: rows_filtered_df)
next
  assume "\<forall>r \<in> set (rows df). \<not> passes services age_range min_satisfaction r"
  then have "filter (passes services age_range min_satisfaction) (rows df) = []"
    by (simp add: filter_empty_conv)
  then have "rows (filtered_df df services age_range min_satisfaction) = []"
    by (simp add: rows_filtered_df)
  then show "filtered_df df services age_range min_satisfaction = df\<lparr>rows := []\<rparr>"
    by (simp add: filtered_df_def boolean_index_def)
qed

theorem filtered_df_spec_witness:
  "rows (filtered_df sample_df [''A'', ''B''] (0, 100) 50) = [sample_anon]
   \<and> rows (filtered_df sample_df [] (0, 100) 0) = []
   \<and> filtered_df sample_df [''A'', ''B''] (0, 100) 95 = sample_df\<lparr>rows := []\<rparr>"
  using filtered_df_spec [of sample_df "[''A'', ''B'']" "(0, 100)" 50]
    filtered_df_spec [of sample_df "[]" "(0, 100)" 0]
    filtered_df_spec [of sample_df "[''A'', ''B'']" "(0, 100)" 95]
  by (simp add: passes_def sample_df_def sample_al_def sample_anon_def)

subsection \<open>Age groups\<close>

text \<open>The age group of every age: from 1 to 100 the five buckets, outside them none.\<close>

lemma age_group_of_cases:
  "age_group_of a =
     (if a \<le> 0 \<or> 100 < a then None
      else if a \<le> 18 then Some ''0-18''
      else if a \<le> 35 then Some ''19-35''
      else if a \<le> 50 then Some ''36-50''
      else if a \<le> 65 then Some ''51-65''
      else Some ''65+'')"
  by (simp add: age_group_of_def cut_def searchsorted_left_def age_bins_def age_labels_def)

text \<open>
  Claim C3, at the ages where the code leaves it. The labels \<^verbatim>\<open>'0-18'\<close> and \<^verbatim>\<open>'65+'\<close>
  announce a first bucket that starts at 0 and a last bucket without an upper end, but
  the first bin \<open>(0, 18]\<close> is open at 0 and the last bin ends at 100: age 0 and every age
  above 100 get no age group, while the ages next to them do.
\<close>

theorem age_group_gaps:
  "age_group_of 0 = None \<and> age_group_of 101 = None
   \<and> age_group_of 1 = Some ''0-18'' \<and> age_group_of 100 = Some ''65+''"
  by (simp add: age_group_of_def cut_def searchsorted_left_def age_bins_def age_labels_def)

subsection \<open>The mode\<close>

lemma sort_Cons_least:
  assumes "sort xs = m # rest"
  shows "m \<in> set xs \<and> (\<forall>y \<in> set xs. m \<le> y)"
proof -
  have "set (sort xs) = set xs" by simp
  with assms have s: "set xs = insert m (set rest)" by simp
  have "sorted (sort xs)" by simp
  with assms have "\<forall>y \<in> set rest. m \<le> y" by simp
  with s show ?thesis by auto
qed

lemma most_frequent_exists:
  assumes "xs \<noteq> []"
  shows "\<exists>x \<in> set xs. \<forall>y \<in> set xs. count_list xs y \<le> count_list xs x"
proof -
  have fin: "finite (count_list xs ` set xs)" and ne: "count_list xs ` set xs \<noteq> {}"
    using assms by auto
  from Max_in [OF fin ne] obtain x where x: "x \<in> set xs"
    and mx: "count_list xs x = Max (count_list xs ` set xs)" by auto
  have "\<forall>y \<in> set xs. count_list xs y \<le> count_list xs x"
    using Max_ge [OF fin] mx by auto
  with x show ?thesis by blast
qed

lemma mode_nonempty: "xs \<noteq> [] \<Longrightarrow> mode xs \<noteq> []"
proof -
  assume "xs \<noteq> []"
  from most_frequent_exists [OF this] obtain x where "x \<in> set xs"
    and "\<forall>y \<in> set xs. count_list xs y \<le> count_list xs x" by blast
  then have "x \<in> set (mode xs)" by (simp add: mode_def)
  then show ?thesis by auto
qed


lemma set_mode:
  "set (mode xs) = {x \<in> set xs. \<forall>y \<in> set xs. count_list xs y \<le> count_list xs x}"
  by (auto simp: mode_def)

text \<open>
  Claim C7, as the code has it. On a frame with at least one row, the most common
  service is a service of the frame whose frequency is the highest; when several
  services share the highest frequency, it is the least of them in the ascending order
  of strings (\<^verbatim>\<open>Series.mode()\<close> returns the tied values sorted, and \<^verbatim>\<open>[0]\<close> takes the
  first), not the one that occurs first in the input.
\<close>

theorem most_common_service_least_of_ties:
  assumes "rows f \<noteq> []"
  shows "\<exists>m. most_common_service f = Inr m
           \<and> m \<in> set (map service (rows f))
           \<and> (\<forall>y. count_list (map service (rows f)) y \<le> count_list (map service (rows f)) m)
           \<and> (\<forall>y. count_list (map service (rows f)) y = count_list (map service (rows f)) m
                  \<longrightarrow> m \<le> y)"
proof -
  let ?svc = "map service (rows f)"
  from assms have "?svc \<noteq> []" by simp
  then have "mode ?svc \<noteq> []" by (rule mode_nonempty)
  then obtain m rest where mr: "mode ?svc = m # rest" by (cases "mode ?svc") auto
  then have res: "most_common_service f = Inr m" by (simp add: most_common_service_def)
  from mr have "m \<in> set (mode ?svc)" by simp
  then have m_in: "m \<in> set ?svc"
    and m_max: "\<forall>y \<in> set ?svc. count_list ?svc y \<le> count_list ?svc m"
    by (auto simp: set_mode)
  have max_all: "count_list ?svc y \<le> count_list ?svc m" for y
  proof (cases "y \<in> set ?svc")
    case True with m_max show ?thesis by blast
  next
    case False then show ?thesis by (simp add: count_list_0_iff)
  qed
  have pos: "0 < count_list ?svc m"
    using m_in by (simp add: count_list_0_iff Suc_le_eq not_le[symmetric] del: set_map)
  have least: "m \<le> y" if eq: "count_list ?svc y = count_list ?svc m" for y
  proof -
    from eq pos have "y \<in> set ?svc" using count_list_0_iff [of ?svc y] by auto
    moreover have "\<forall>z \<in> set ?svc. count_list ?svc z \<le> count_list ?svc y"
      using max_all eq by simp
    ultimately have "y \<in> set (mode ?svc)" by (simp add: set_mode del: set_map)
    moreover from mr have
      "sort (filter (\<lambda>x. \<forall>y \<in> set ?svc. count_list ?svc y \<le> count_list ?svc x)
         (remdups ?svc)) = m # rest"
      by (simp add: mode_def)
    from sort_Cons_least [OF this] have "\<forall>z \<in> set (mode ?svc). m \<le> z"
      by (simp add: mode_def del: set_map)
    ultimately show ?thesis by blast
  qed
  from res m_in max_all least show ?thesis by blast
qed

theorem most_common_service_least_of_ties_witness:
  "rows sample_df \<noteq> [] \<and> most_common_service sample_df = Inr ''A''"
  using most_common_service_least_of_ties [of sample_df]
  by (simp add: sample_df_def sample_al_def sample_anon_def most_common_service_def mode_def)

text \<open>
  The services of the sample are B, then A, once each: the first of the tied values in
  the input is B, and the script reports A.
\<close>

theorem mode_first_occurrence_counterexample:
  "mode_first_occurrence (map service (rows sample_df)) = Some ''B''
   \<and> most_common_service sample_df = Inr ''A''
   \<and> most_common_service sample_df \<noteq> Inr ''B''"
  by (simp add: sample_df_def sample_al_def sample_anon_def most_common_service_def mode_def
      mode_first_occurrence_def)

subsection \<open>The default sort\<close>

lemma mset_argsort: "mset (argsort tie vs) = mset [0..<length vs]"
  by (simp add: argsort_def)

lemma set_argsort: "set (argsort tie vs) = {0..<length vs}"
  by (simp add: argsort_def)

lemma sorted_argsort: "sorted (map (\<lambda>i. vs ! i) (argsort tie vs))"
  by (simp add: argsort_def)

lemma position_in_nth: "distinct p \<Longrightarrow> n < length p \<Longrightarrow> position_in p (p ! n) = n"
proof (induction p arbitrary: n)
  case Nil
  then show ?case by simp
next
  case (Cons a p)
  show ?case
  proof (cases n)
    case 0
    then show ?thesis by (simp add: position_in_def)
  next
    case (Suc m)
    with Cons.prems have "p ! m \<in> set p" by simp
    with Cons.prems(1) have "a \<noteq> p ! m" by auto
    moreover have "position_in p (p ! m) = m" using Cons Suc by simp
    ultimately show ?thesis using Suc by (simp add: position_in_def)
  qed
qed

lemma position_in_inj: "distinct p \<Longrightarrow> inj_on (position_in p) (set p)"
proof (rule inj_onI)
  fix x y assume d: "distinct p" and "x \<in> set p" "y \<in> set p" and e: "position_in p x = position_in p y"
  then obtain a b where "a < length p" "p ! a = x" "b < length p" "p ! b = y"
    by (auto simp: in_set_conv_nth)
  with d e show "x = y" using position_in_nth by metis
qed

lemma filter_inj_on_single:
  assumes "distinct xs" and "k \<in> set xs" and "inj_on f (set xs)"
  shows "filter (\<lambda>x. f k = f x) xs = [k]"
  using assms
proof (induction xs)
  case Nil
  then show ?case by simp
next
  case (Cons a xs)
  show ?case
  proof (cases "a = k")
    case True
    with Cons.prems have "\<forall>x \<in> set xs. f k \<noteq> f x" by (auto simp: inj_on_def)
    with True show ?thesis by (simp add: filter_empty_conv)
  next
    case False
    with Cons.prems have "f k \<noteq> f a" by (auto simp: inj_on_def)
    moreover have "filter (\<lambda>x. f k = f x) xs = [k]"
      using Cons False by (auto simp: inj_on_def)
    ultimately show ?thesis by simp
  qed
qed

text \<open>
  The parameter \<open>tie\<close> leaves the sort as open as the library does: every order of the
  positions that puts the values in ascending order is the outcome for some \<open>tie\<close>.
\<close>

lemma argsort_any:
  assumes "mset p = mset [0..<length vs]" and "sorted (map (\<lambda>i. vs ! i) p)"
  shows "\<exists>tie. argsort tie vs = p"
proof -
  have d: "distinct p" using assms(1) by (metis distinct_upt mset_eq_imp_distinct_iff)
  have s: "set p = set [0..<length vs]" using assms(1) by (rule mset_eq_setD)
  have m: "map (position_in p) p = [0..<length p]"
    by (rule nth_equalityI) (simp_all add: position_in_nth d)
  have inj: "inj_on (position_in p) (set p)" using d by (rule position_in_inj)
  have "sort_key (position_in p) [0..<length vs] = p"
  proof (rule properties_for_sort_key)
    show "mset p = mset [0..<length vs]" by fact
    show "sorted (map (position_in p) p)" by (simp add: m)
    fix k assume k: "k \<in> set p"
    have "filter (\<lambda>x. position_in p k = position_in p x) p = [k]"
      using d k inj by (rule filter_inj_on_single)
    moreover have "filter (\<lambda>x. position_in p k = position_in p x) [0..<length vs] = [k]"
      using k inj unfolding s by (intro filter_inj_on_single) simp_all
    ultimately show "filter (\<lambda>x. position_in p k = position_in p x) p
        = filter (\<lambda>x. position_in p k = position_in p x) [0..<length vs]" by simp
  qed
  moreover have "sort_key (\<lambda>i. vs ! i) p = p" using assms(2) by (rule sort_key_id_if_sorted)
  ultimately have "argsort (\<lambda>vs. position_in p) vs = p" by (simp add: argsort_def)
  then show ?thesis by blast
qed

lemma mset_map_nth_perm:
  assumes "mset p = mset [0..<length xs]"
  shows "mset (map (\<lambda>i. xs ! i) p) = mset xs"
proof -
  have "mset (map (\<lambda>i. xs ! i) p) = image_mset (\<lambda>i. xs ! i) (mset p)" by simp
  also have "\<dots> = image_mset (\<lambda>i. xs ! i) (mset [0..<length xs])" by (simp add: assms)
  also have "\<dots> = mset (map (\<lambda>i. xs ! i) [0..<length xs])" by simp
  also have "\<dots> = mset xs" by (simp add: map_nth)
  finally show ?thesis .
qed

lemma mset_nargsort_desc: "mset (nargsort_desc tie items) = mset [0..<length items]"
proof -
  let ?nn = "filter (\<lambda>i. items ! i \<noteq> None) [0..<length items]"
  let ?na = "filter (\<lambda>i. items ! i = None) [0..<length items]"
  let ?v = "rev (map (\<lambda>i. the (items ! i)) ?nn)"
  have "length ?v = length (rev ?nn)" by simp
  then have "mset (argsort tie ?v) = mset [0..<length (rev ?nn)]" by (simp add: mset_argsort)
  then have "mset (map (\<lambda>j. rev ?nn ! j) (argsort tie ?v)) = mset (rev ?nn)"
    by (rule mset_map_nth_perm)
  then have "mset (nargsort_desc tie items) = mset ?nn + mset ?na"
    by (simp add: nargsort_desc_def Let_def)
  also have "\<dots> = mset [0..<length items]"
    unfolding mset_filter by (rule union_filter_mset_complement) simp
  finally show ?thesis .
qed

text \<open>Sorting keeps every entry, each as often as it stood.\<close>

lemma mset_sort_values_desc: "mset (sort_values_desc tie s) = mset s"
  unfolding sort_values_desc_def
  using mset_nargsort_desc [of tie "map snd s"] by (intro mset_map_nth_perm) simp

lemma nargsort_desc_defined:
  assumes "\<forall>v \<in> set items. v \<noteq> None"
  shows "nargsort_desc tie items =
           rev (map (\<lambda>j. rev [0..<length items] ! j) (argsort tie (rev (map the items))))"
proof -
  have a: "filter (\<lambda>i. items ! i \<noteq> None) [0..<length items] = [0..<length items]"
    using assms by (simp add: filter_id_conv)
  have b: "filter (\<lambda>i. items ! i = None) [0..<length items] = []"
    using assms by (simp add: filter_empty_conv)
  have c: "map (\<lambda>i. the (items ! i)) [0..<length items] = map the items"
    by (rule nth_equalityI) simp_all
  show ?thesis by (simp only: nargsort_desc_def Let_def a b c append_Nil2)
qed

text \<open>With no NaN among the values, the sorted entries are in descending order.\<close>

lemma sort_values_desc_order:
  assumes "\<forall>kv \<in> set s. snd kv \<noteq> None"
  shows "sorted_wrt (\<lambda>a b. the (snd b) \<le> the (snd a)) (sort_values_desc tie s)"
proof -
  let ?n = "length s"
  let ?rv = "rev (map the (map snd s))"
  let ?p = "argsort tie ?rv"
  have items: "\<forall>v \<in> set (map snd s). v \<noteq> None" using assms by simp
  have p_lt: "\<forall>j \<in> set ?p. j < ?n" by (simp add: set_argsort)
  have val: "the (snd (s ! (rev [0..<?n] ! j))) = ?rv ! j" if "j < ?n" for j
    using that by (simp add: rev_nth rev_map [symmetric])
  have eq: "map (\<lambda>kv. the (snd kv)) (map (\<lambda>i. s ! i) (map (\<lambda>j. rev [0..<?n] ! j) ?p))
        = map (\<lambda>j. ?rv ! j) ?p"
    using p_lt val by (simp add: comp_def)
  have "sorted (map (\<lambda>j. ?rv ! j) ?p)" by (rule sorted_argsort)
  then have "sorted (map (\<lambda>kv. the (snd kv)) (map (\<lambda>i. s ! i) (map (\<lambda>j. rev [0..<?n] ! j) ?p)))"
    by (simp only: eq)
  then have "sorted_wrt (\<lambda>a b. the (snd a) \<le> the (snd b))
               (map (\<lambda>i. s ! i) (map (\<lambda>j. rev [0..<?n] ! j) ?p))"
    by (simp only: sorted_map)
  then have "sorted_wrt (\<lambda>b a. the (snd a) \<le> the (snd b))
               (rev (map (\<lambda>i. s ! i) (map (\<lambda>j. rev [0..<?n] ! j) ?p)))"
    by (simp add: sorted_wrt_rev)
  moreover have "sort_values_desc tie s = rev (map (\<lambda>i. s ! i) (map (\<lambda>j. rev [0..<?n] ! j) ?p))"
    using nargsort_desc_defined [OF items, of tie] by (simp add: sort_values_desc_def rev_map)
  ultimately show ?thesis by simp
qed


subsection \<open>The empty view\<close>





subsection \<open>What a run changes\<close>







subsection \<open>Group means\<close>

lemma sum_list_bounds:
  fixes xs :: "int list"
  assumes "\<forall>x \<in> set xs. lo \<le> x \<and> x \<le> hi"
  shows "lo * int (length xs) \<le> sum_list xs \<and> sum_list xs \<le> hi * int (length xs)"
  using assms by (induction xs) (auto simp: algebra_simps)

lemma mean_bounds:
  assumes "xs \<noteq> []"
  shows "\<exists>m. mean xs = Some m \<and> real_of_int (Min (set xs)) \<le> m \<and> m \<le> real_of_int (Max (set xs))"
proof -
  have len: "0 < real (length xs)" using assms by simp
  have "\<forall>x \<in> set xs. Min (set xs) \<le> x \<and> x \<le> Max (set xs)" by simp
  from sum_list_bounds [OF this]
  have lo: "Min (set xs) * int (length xs) \<le> sum_list xs"
    and hi: "sum_list xs \<le> Max (set xs) * int (length xs)" by simp_all
  have "real_of_int (Min (set xs)) * real (length xs) \<le> real_of_int (sum_list xs)"
    using lo by (metis of_int_le_iff of_int_mult of_int_of_nat_eq)
  then have l: "real_of_int (Min (set xs)) \<le> real_of_int (sum_list xs) / real (length xs)"
    using len by (simp add: pos_le_divide_eq)
  have "real_of_int (sum_list xs) \<le> real_of_int (Max (set xs)) * real (length xs)"
    using hi by (metis of_int_le_iff of_int_mult of_int_of_nat_eq)
  then have h: "real_of_int (sum_list xs) / real (length xs) \<le> real_of_int (Max (set xs))"
    using len by (simp add: pos_divide_le_eq)
  from l h assms show ?thesis by (simp add: mean_def)
qed


lemma groupby_mean_keys:
  "map fst (groupby_mean key val rs) = sort (remdups (map key rs))"
  by (simp add: groupby_mean_def comp_def)

lemma groupby_mean_entry:
  assumes "(k, v) \<in> set (groupby_mean key val rs)"
  shows "k \<in> key ` set rs \<and> v = mean (map val (filter (\<lambda>r. key r = k) rs))"
  using assms by (auto simp: groupby_mean_def)

lemma groupby_mean_defined:
  assumes "kv \<in> set (groupby_mean key val rs)"
  shows "snd kv \<noteq> None"
proof -
  obtain k v where kv: "kv = (k, v)" by (cases kv)
  from groupby_mean_entry assms kv
  have k: "k \<in> key ` set rs" and v: "v = mean (map val (filter (\<lambda>r. key r = k) rs))" by blast+
  from k have "filter (\<lambda>r. key r = k) rs \<noteq> []" by (auto simp: filter_empty_conv)
  with v kv show ?thesis by (simp add: mean_def)
qed

lemma set_service_satisfaction:
  "set (service_satisfaction lib f) = set (groupby_mean service satisfaction (rows f))"
  unfolding service_satisfaction_def by (rule mset_eq_setD) (rule mset_sort_values_desc)

lemma distinct_service_satisfaction: "distinct (map fst (service_satisfaction lib f))"
proof -
  have "mset (map fst (service_satisfaction lib f))
        = mset (map fst (groupby_mean service satisfaction (rows f)))"
    by (simp add: service_satisfaction_def mset_sort_values_desc)
  moreover have "distinct (map fst (groupby_mean service satisfaction (rows f)))"
    by (simp add: groupby_mean_keys)
  ultimately show ?thesis by (metis mset_eq_imp_distinct_iff)
qed

lemma service_satisfaction_order:
  "sorted_wrt descending_mean (service_satisfaction lib f)"
proof -
  let ?g = "groupby_mean service satisfaction (rows f)"
  have "sorted_wrt (\<lambda>a b. the (snd b) \<le> the (snd a)) (service_satisfaction lib f)"
    unfolding service_satisfaction_def
    by (rule sort_values_desc_order) (simp add: groupby_mean_defined)
  moreover have "descending_mean a b"
    if "a \<in> set (service_satisfaction lib f)" "b \<in> set (service_satisfaction lib f)"
      "the (snd b) \<le> the (snd a)" for a b
  proof -
    from that(1,2) have "snd a \<noteq> None" "snd b \<noteq> None"
      by (simp_all add: set_service_satisfaction groupby_mean_defined)
    then obtain x y where "snd a = Some x" "snd b = Some y" by auto
    with that(3) show ?thesis by (simp add: descending_mean_def)
  qed
  ultimately show ?thesis by (rule sorted_wrt_mono_rel [rotated])
qed

text \<open>
  Claim C6, as the code has it. The service means (line 103) have exactly the services
  of the rows as their groups, each once; the value of a group is the mean of the
  satisfaction of its rows and lies between the least and the greatest of them; and the
  display order is by descending mean: no service stands before one with a greater
  mean. Among services with equal means the order is the one the default sort of the
  library leaves, whatever it is: line 103 gives no second key. The age group means
  (line 177) are not sorted: they list age groups in the fixed order of the labels,
  every age group that has a row and, with pandas' default \<^verbatim>\<open>observed=False\<close>, all five
  of them (with \<^verbatim>\<open>observed=True\<close>, no other). The value of an age group is the mean of
  the satisfaction of its rows, NaN when it has none; a mean that is not NaN lies
  between the least and the greatest satisfaction of its group.
\<close>

theorem group_means:
  "fst ` set (service_satisfaction lib f) = service ` set (rows f)
   \<and> distinct (map fst (service_satisfaction lib f))
   \<and> (\<forall>k v. (k, v) \<in> set (service_satisfaction lib f) \<longrightarrow>
        (\<exists>m. v = Some m
           \<and> mean (map satisfaction (filter (\<lambda>r. service r = k) (rows f))) = Some m
           \<and> real_of_int (Min (satisfaction ` {r \<in> set (rows f). service r = k})) \<le> m
           \<and> m \<le> real_of_int (Max (satisfaction ` {r \<in> set (rows f). service r = k}))))
   \<and> sorted_wrt descending_mean (service_satisfaction lib f)
   \<and> subseq (map fst (age_group_satisfaction observed f)) age_labels
   \<and> (\<not> observed \<longrightarrow> map fst (age_group_satisfaction observed f) = age_labels)
   \<and> (observed \<longrightarrow> (\<forall>l \<in> fst ` set (age_group_satisfaction observed f).
                       \<exists>r \<in> set (rows f). age_group r = Some l))
   \<and> (\<forall>l \<in> set age_labels. (\<exists>r \<in> set (rows f). age_group r = Some l) \<longrightarrow>
         l \<in> fst ` set (age_group_satisfaction observed f))
   \<and> (\<forall>l v. (l, v) \<in> set (age_group_satisfaction observed f) \<longrightarrow>
        v = mean (map satisfaction (filter (\<lambda>r. age_group r = Some l) (rows f)))
        \<and> (v = None \<longleftrightarrow> (\<forall>r \<in> set (rows f). age_group r \<noteq> Some l))
        \<and> (\<forall>m. v = Some m \<longrightarrow>
              real_of_int (Min (satisfaction ` {r \<in> set (rows f). age_group r = Some l})) \<le> m
              \<and> m \<le> real_of_int (Max (satisfaction ` {r \<in> set (rows f). age_group r = Some l}))))"
proof (intro conjI allI impI)
  have "fst ` set (service_satisfaction lib f) = set (map fst (groupby_mean service satisfaction (rows f)))"
    by (simp add: set_service_satisfaction)
  also have "\<dots> = service ` set (rows f)"
    by (simp add: groupby_mean_keys del: set_map) simp
  finally show "fst ` set (service_satisfaction lib f) = service ` set (rows f)" .
next
  show "distinct (map fst (service_satisfaction lib f))"
    by (rule distinct_service_satisfaction)
next
  fix k v
  assume "(k, v) \<in> set (service_satisfaction lib f)"
  then have "(k, v) \<in> set (groupby_mean service satisfaction (rows f))"
    by (simp add: set_service_satisfaction)
  from groupby_mean_entry [OF this]
  have k: "k \<in> service ` set (rows f)"
    and v: "v = mean (map satisfaction (filter (\<lambda>r. service r = k) (rows f)))" by blast+
  let ?grp = "map satisfaction (filter (\<lambda>r. service r = k) (rows f))"
  from k have "?grp \<noteq> []" by (auto simp: filter_empty_conv)
  from mean_bounds [OF this] obtain m where m: "mean ?grp = Some m"
    and b: "real_of_int (Min (set ?grp)) \<le> m" "m \<le> real_of_int (Max (set ?grp))" by blast
  have "set ?grp = satisfaction ` {r \<in> set (rows f). service r = k}" by auto
  with m b v show "\<exists>m. v = Some m
           \<and> mean (map satisfaction (filter (\<lambda>r. service r = k) (rows f))) = Some m
           \<and> real_of_int (Min (satisfaction ` {r \<in> set (rows f). service r = k})) \<le> m
           \<and> m \<le> real_of_int (Max (satisfaction ` {r \<in> set (rows f). service r = k}))"
    by auto
next
  show "sorted_wrt descending_mean (service_satisfaction lib f)"
    by (rule service_satisfaction_order)
next
  show "subseq (map fst (age_group_satisfaction observed f)) age_labels"
    by (simp add: age_group_satisfaction_def groupby_categorical_mean_def comp_def)
next
  assume "\<not> observed"
  then show "map fst (age_group_satisfaction observed f) = age_labels"
    by (simp add: age_group_satisfaction_def groupby_categorical_mean_def comp_def)
next
  assume observed
  then show "\<forall>l \<in> fst ` set (age_group_satisfaction observed f).
               \<exists>r \<in> set (rows f). age_group r = Some l"
    by (auto simp: age_group_satisfaction_def groupby_categorical_mean_def)
next
  show "\<forall>l \<in> set age_labels. (\<exists>r \<in> set (rows f). age_group r = Some l) \<longrightarrow>
         l \<in> fst ` set (age_group_satisfaction observed f)"
    by (auto simp: age_group_satisfaction_def groupby_categorical_mean_def image_iff)
next
  fix l v
  assume "(l, v) \<in> set (age_group_satisfaction observed f)"
  then show v: "v = mean (map satisfaction (filter (\<lambda>r. age_group r = Some l) (rows f)))"
    by (auto simp: age_group_satisfaction_def groupby_categorical_mean_def)
  show "v = None \<longleftrightarrow> (\<forall>r \<in> set (rows f). age_group r \<noteq> Some l)"
    by (simp add: v mean_def filter_empty_conv)
  fix m
  assume "v = Some m"
  let ?grp = "map satisfaction (filter (\<lambda>r. age_group r = Some l) (rows f))"
  from \<open>v = Some m\<close> v have ne: "?grp \<noteq> []" by (auto simp: mean_def split: if_splits)
  from mean_bounds [OF ne] \<open>v = Some m\<close> v
  have b: "real_of_int (Min (set ?grp)) \<le> m" "m \<le> real_of_int (Max (set ?grp))" by auto
  have "set ?grp = satisfaction ` {r \<in> set (rows f). age_group r = Some l}" by auto
  with b show "real_of_int (Min (satisfaction ` {r \<in> set (rows f). age_group r = Some l})) \<le> m"
    and "m \<le> real_of_int (Max (satisfaction ` {r \<in> set (rows f). age_group r = Some l}))"
    by simp_all
qed

lemma sample_age_group_satisfaction:
  "age_group_satisfaction False (assign_age_group sample_df) =
     [(''0-18'', Some 10), (''19-35'', None), (''36-50'', Some 90), (''51-65'', None),
      (''65+'', None)]"
  by (simp add: age_group_satisfaction_def groupby_categorical_mean_def assign_age_group_def
      sample_df_def sample_al_def sample_anon_def age_labels_def age_group_of_def cut_def
      searchsorted_left_def age_bins_def mean_def)

lemma sample_age_group_satisfaction_observed:
  "age_group_satisfaction True (assign_age_group sample_df) =
     [(''0-18'', Some 10), (''36-50'', Some 90)]"
  by (simp add: age_group_satisfaction_def groupby_categorical_mean_def assign_age_group_def
      sample_df_def sample_al_def sample_anon_def age_labels_def age_group_of_def cut_def
      searchsorted_left_def age_bins_def mean_def)

lemma sample_service_satisfaction:
  "service_satisfaction iso_dates sample_df = [(''A'', Some 90), (''B'', Some 10)]"
  by (simp add: service_satisfaction_def groupby_mean_def sort_values_desc_def nargsort_desc_def
      argsort_def iso_dates_def sample_df_def sample_al_def sample_anon_def mean_def Let_def
      upt_rec nth_Cons')

theorem group_means_witness:
  "service_satisfaction iso_dates sample_df = [(''A'', Some 90), (''B'', Some 10)]
   \<and> sorted_wrt descending_mean (service_satisfaction iso_dates sample_df)
   \<and> map fst (age_group_satisfaction False (assign_age_group sample_df)) = age_labels
   \<and> subseq (map fst (age_group_satisfaction True (assign_age_group sample_df))) age_labels"
  using group_means [of iso_dates sample_df False]
    group_means [of iso_dates "assign_age_group sample_df" False]
    group_means [of iso_dates "assign_age_group sample_df" True] sample_service_satisfaction
  by simp

text \<open>
  Two services with the same mean: a library whose sort leaves equal values as they
  stood displays A before B, and one whose sort leaves them the other way round
  displays B before A. Both orders are by descending mean.
\<close>

lemma service_satisfaction_ties:
  "service_satisfaction (iso_dates\<lparr>tie_order := \<lambda>vs i. 0\<rparr>)
     (sample_df\<lparr>rows := [sample_al, sample_al\<lparr>service := ''A''\<rparr>]\<rparr>)
     = [(''A'', Some 10), (''B'', Some 10)]
   \<and> service_satisfaction (iso_dates\<lparr>tie_order := \<lambda>vs i. length vs - i\<rparr>)
     (sample_df\<lparr>rows := [sample_al, sample_al\<lparr>service := ''A''\<rparr>]\<rparr>)
     = [(''B'', Some 10), (''A'', Some 10)]"
  by (simp add: service_satisfaction_def groupby_mean_def sort_values_desc_def nargsort_desc_def
      argsort_def iso_dates_def sample_df_def sample_al_def mean_def Let_def upt_rec nth_Cons')

text \<open>
  The sample has one patient aged 10 with satisfaction 10 and one aged 40 with
  satisfaction 90. The age group with the lower mean is displayed first, whatever the
  default of \<^verbatim>\<open>observed\<close>; and with \<^verbatim>\<open>observed=False\<close> the age groups without rows appear
  in the result.
\<close>

theorem age_group_satisfaction_counterexample:
  "age_group_satisfaction False (assign_age_group sample_df) =
     [(''0-18'', Some 10), (''19-35'', None), (''36-50'', Some 90), (''51-65'', None),
      (''65+'', None)]
   \<and> age_group_satisfaction True (assign_age_group sample_df) =
     [(''0-18'', Some 10), (''36-50'', Some 90)]
   \<and> \<not> sorted_wrt before_in_display (age_group_satisfaction True (assign_age_group sample_df))
   \<and> \<not> sorted_wrt before_in_display (age_group_satisfaction False (assign_age_group sample_df))
   \<and> filter (\<lambda>r. age_group r = Some ''19-35'') (rows (assign_age_group sample_df)) = []"
  by (simp add: sample_age_group_satisfaction sample_age_group_satisfaction_observed
      before_in_display_def)
    (simp add: assign_age_group_def sample_df_def sample_al_def sample_anon_def age_group_of_def
      cut_def searchsorted_left_def age_bins_def age_labels_def)

subsection \<open>The name search\<close>





lemma rows_boolean_index_map:
  "rows (boolean_index f (map P (rows f))) = filter P (rows f)"
  by (simp add: boolean_index_def boolean_index_map)








subsection \<open>The correlation\<close>

lemma np_cov_columns:
  "np_cov (map a rs) (map b rs) =
     (if length rs < 2 then None
      else Some ((\<Sum>r \<leftarrow> rs. (real_of_int (a r) - np_average (map a rs)) *
                              (real_of_int (b r) - np_average (map b rs)))
                 / real (length rs - 1)))"
  by (simp add: np_cov_def zip_map_map comp_def case_prod_beta zip_same_conv_map)

lemma np_cov_commute: "np_cov (map a rs) (map b rs) = np_cov (map b rs) (map a rs)"
  by (simp add: np_cov_columns mult.commute)

lemma nan_div_swap: "nan_div (nan_div c x) y = nan_div (nan_div c y) x"
  by (cases c; cases x; cases y) (auto simp: nan_div_def)

lemma pearson_commute: "pearson (map a rs) (map b rs) = pearson (map b rs) (map a rs)"
proof -
  have "nan_div (nan_div (np_cov (map a rs) (map b rs)) (nan_sqrt (np_cov (map a rs) (map a rs))))
          (nan_sqrt (np_cov (map b rs) (map b rs)))
      = nan_div (nan_div (np_cov (map b rs) (map a rs)) (nan_sqrt (np_cov (map b rs) (map b rs))))
          (nan_sqrt (np_cov (map a rs) (map a rs)))"
    by (simp add: np_cov_commute [of a rs b] nan_div_swap)
  then show ?thesis by (simp add: pearson_def)
qed

lemma pearson_range:
  assumes "pearson xs ys = Some c"
  shows "- 1 \<le> c \<and> c \<le> 1"
  using assms by (auto simp: pearson_def np_clip_def split: if_splits)

lemma np_average_constant:
  assumes "\<forall>r \<in> set rs. a r = k" and "rs \<noteq> []"
  shows "np_average (map a rs) = real_of_int k"
proof -
  have "sum_list (map a rs) = k * int (length rs)"
    using assms(1) by (induction rs) (simp_all add: algebra_simps)
  with assms(2) show ?thesis by (simp add: np_average_def)
qed

lemma np_cov_constant:
  assumes "\<forall>r \<in> set rs. a r = k"
  shows "nan_sqrt (np_cov (map a rs) (map a rs)) = None
       \<or> nan_sqrt (np_cov (map a rs) (map a rs)) = Some 0"
proof (cases "length rs < 2")
  case True
  then show ?thesis by (simp add: np_cov_columns nan_sqrt_def)
next
  case False
  then have ne: "rs \<noteq> []" by auto
  have avg: "np_average (map a rs) = real_of_int k"
    using assms ne by (rule np_average_constant)
  have "(\<Sum>r \<leftarrow> rs. (real_of_int (a r) - real_of_int k) * (real_of_int (a r) - real_of_int k)) = 0"
    using assms by (induction rs) simp_all
  with False avg show ?thesis by (simp add: np_cov_columns nan_sqrt_def)
qed

lemma nan_div_zero: "d = None \<or> d = Some 0 \<Longrightarrow> nan_div c d = None"
  by (cases c) (auto simp: nan_div_def)

lemma nan_div_None: "nan_div None d = None"
  by (simp add: nan_div_def)

lemma pearson_constant_left:
  assumes "\<forall>r \<in> set rs. a r = k"
  shows "pearson (map a rs) (map b rs) = None"
proof -
  have "nan_div (np_cov (map a rs) (map b rs)) (nan_sqrt (np_cov (map a rs) (map a rs))) = None"
    by (rule nan_div_zero) (rule np_cov_constant [OF assms])
  then show ?thesis by (simp add: pearson_def nan_div_None)
qed

subsection \<open>The correlation in 64-bit floating point\<close>

lemma ilog2_bounds:
  "1 \<le> n \<Longrightarrow> 0 \<le> ilog2 n \<and> 2 ^ nat (ilog2 n) \<le> n \<and> n < 2 * 2 ^ nat (ilog2 n)"
proof (induction n rule: ilog2.induct)
  case (1 n)
  show ?case
  proof (cases "n < 2")
    case True
    with 1(2) show ?thesis by (simp add: ilog2.simps [of n])
  next
    case False
    then have "1 \<le> n div 2" by simp
    with 1(1) False have IH: "0 \<le> ilog2 (n div 2)" "2 ^ nat (ilog2 (n div 2)) \<le> n div 2"
      "n div 2 < 2 * 2 ^ nat (ilog2 (n div 2))" by simp_all
    have e: "ilog2 n = 1 + ilog2 (n div 2)" using False by (simp add: ilog2.simps [of n])
    have p: "(2::int) ^ nat (1 + ilog2 (n div 2)) = 2 * 2 ^ nat (ilog2 (n div 2))"
      using IH(1) by (simp add: nat_add_distrib)
    from IH show ?thesis unfolding e p by linarith
  qed
qed

lemma ilog2_one: "ilog2 1 = 0"
  by (simp add: ilog2.simps [of 1])

lemma round_half_even_whole: "round_half_even n 1 = n"
  by (simp add: round_half_even_def)

lemma f64_zero: "f64 0 = 0"
  by (simp add: f64_def)

text \<open>An integer of at most 53 bits is a float.\<close>

lemma f64_of_int:
  assumes "\<bar>i\<bar> \<le> 2 ^ 53"
  shows "f64 (of_int i) = of_int i"
proof (cases "i = 0")
  case True
  then show ?thesis by (simp add: f64_zero)
next
  case False
  define e where "e = ilog2 \<bar>i\<bar>"
  from False have "1 \<le> \<bar>i\<bar>" by simp
  from ilog2_bounds [OF this]
  have e0: "0 \<le> e" and lo: "2 ^ nat e \<le> \<bar>i\<bar>" and hi: "\<bar>i\<bar> < 2 * 2 ^ nat e"
    by (simp_all add: e_def)
  have ex: "exponent i 1 = e"
    using e0 lo by (simp add: exponent_def e_def [symmetric] ilog2_one)
  from lo assms have "(2::int) ^ nat e \<le> 2 ^ 53" by linarith
  then have "nat e \<le> 53" by (rule power_le_imp_le_exp [of "2::int", rotated]) simp
  with e0 have e53: "e \<le> 53" by simp
  have "scaled e i 1 = of_int i"
  proof (cases "e \<le> 52")
    case True
    then have "nat (e - 52) = 0" by simp
    moreover have "pow2 (e - 52) = 1 / 2 ^ nat (52 - e)"
      using True by (cases "e = 52") (simp_all add: pow2_def)
    ultimately show ?thesis
      by (simp add: scaled_def round_half_even_whole)
  next
    case False
    with e53 have e: "e = 53" by simp
    with lo assms have "\<bar>i\<bar> = 2 ^ 53" by simp
    then have "i = 2 ^ 53 \<or> i = - (2 ^ 53)" by linarith
    then show ?thesis
      by (auto simp: scaled_def e round_half_even_def pow2_def)
  qed
  with False ex show ?thesis by (simp add: f64_def quotient_of_int)
qed

lemma f64_sum_constant:
  assumes "\<bar>k\<bar> * (j + int (length rs)) \<le> 2 ^ 53" and "0 \<le> j"
  shows "foldl (\<lambda>s x. f64 (s + x)) (of_int (k * j)) (map (\<lambda>r. of_int k) rs)
         = of_int (k * (j + int (length rs)))"
  using assms
proof (induction rs arbitrary: j)
  case Nil
  then show ?case by simp
next
  case (Cons r rs)
  have le: "\<bar>k\<bar> * (j + 1) \<le> \<bar>k\<bar> * (j + int (length (r # rs)))"
    by (rule mult_left_mono) simp_all
  have "f64 (of_int (k * j) + of_int k) = f64 (of_int (k * (j + 1)))"
    by (simp add: algebra_simps)
  also have "\<dots> = of_int (k * (j + 1))"
  proof (rule f64_of_int)
    have "\<bar>k * (j + 1)\<bar> = \<bar>k\<bar> * (j + 1)" using Cons.prems(2) by (simp add: abs_mult)
    with le Cons.prems(1) show "\<bar>k * (j + 1)\<bar> \<le> 2 ^ 53" by linarith
  qed
  finally have step: "f64 (of_int (k * j) + of_int k) = of_int (k * (j + 1))" .
  have "foldl (\<lambda>s x. f64 (s + x)) (of_int (k * (j + 1))) (map (\<lambda>r. of_int k) rs)
        = of_int (k * (j + 1 + int (length rs)))"
    using Cons.prems by (intro Cons.IH) (simp_all add: algebra_simps)
  with step show ?case by (simp add: algebra_simps)
qed

lemma magnitude_of_constant:
  assumes "\<bar>k\<bar> * int (length rs) \<le> 2 ^ 53" and "rs \<noteq> []"
  shows "\<bar>k\<bar> \<le> 2 ^ 53"
proof -
  from assms(2) have "1 \<le> int (length rs)" by (cases rs) simp_all
  then have "\<bar>k\<bar> * 1 \<le> \<bar>k\<bar> * int (length rs)" by (intro mult_left_mono) simp_all
  with assms(1) show ?thesis by simp
qed

lemma to_float_constant:
  assumes "\<forall>r \<in> set rs. a r = k" and "\<bar>k\<bar> \<le> 2 ^ 53"
  shows "to_float (map a rs) = map (\<lambda>r. of_int k) rs"
  using assms by (simp add: to_float_def f64_of_int)

lemma np_average_f64_constant:
  assumes "\<bar>k\<bar> * int (length rs) \<le> 2 ^ 53" and "rs \<noteq> []"
  shows "np_average_f64 (map (\<lambda>r. of_int k) rs) = of_int k"
proof -
  have "f64_sum (map (\<lambda>r. of_int k) rs) = of_int (k * int (length rs))"
    using f64_sum_constant [of k 0 rs] assms(1) by (simp add: f64_sum_def)
  moreover have "\<bar>k\<bar> \<le> 2 ^ 53"
    using assms by (rule magnitude_of_constant)
  ultimately show ?thesis using assms(2) by (simp add: np_average_f64_def f64_of_int)
qed

lemma np_dot_f64_zero: "np_dot_f64 (map (\<lambda>r. 0) rs) ys = 0"
proof -
  have "map (\<lambda>(x, y). f64 (x * y)) (zip (map (\<lambda>r. 0) rs) ys) = map (\<lambda>p. 0) (zip rs ys)"
    by (simp add: zip_map1 case_prod_beta f64_zero)
  moreover have "foldl (\<lambda>s x. f64 (s + x)) 0 (map (\<lambda>p. 0) zs) = 0" for zs :: "('a \<times> rat) list"
    by (induction zs) (simp_all add: f64_zero)
  ultimately show ?thesis by (simp add: np_dot_f64_def f64_sum_def)
qed

lemma np_cov_f64_constant:
  assumes "\<forall>r \<in> set rs. a r = k" and "\<bar>k\<bar> * int (length rs) \<le> 2 ^ 53"
  shows "nan_sqrt_f64 (np_cov_f64 (to_float (map a rs)) (to_float (map a rs))) = None
       \<or> nan_sqrt_f64 (np_cov_f64 (to_float (map a rs)) (to_float (map a rs))) = Some 0"
proof (cases "length rs < 2")
  case True
  then show ?thesis by (simp add: np_cov_f64_def nan_sqrt_f64_def to_float_def)
next
  case False
  then have ne: "rs \<noteq> []" by auto
  have k: "\<bar>k\<bar> \<le> 2 ^ 53"
    using assms(2) ne by (rule magnitude_of_constant)
  have fl: "to_float (map a rs) = map (\<lambda>r. of_int k) rs"
    using assms(1) k by (rule to_float_constant)
  have avg: "np_average_f64 (map (\<lambda>r. of_int k) rs) = of_int k"
    using assms(2) ne by (rule np_average_f64_constant)
  have "subtract_f64 (of_int k) (map (\<lambda>r. of_int k) rs) = map (\<lambda>r. 0) rs"
    by (simp add: subtract_f64_def f64_zero)
  with False fl avg show ?thesis
    by (simp add: np_cov_f64_def np_dot_f64_zero f64_zero nan_sqrt_f64_def f64_sqrt_def)
qed

lemma nan_div_f64_zero: "d = None \<or> d = Some 0 \<Longrightarrow> nan_div_f64 c d = None"
  by (cases c) (auto simp: nan_div_f64_def)

lemma nan_div_f64_None: "nan_div_f64 None d = None"
  by (simp add: nan_div_f64_def)

lemma pearson_f64_constant:
  assumes "\<bar>k\<bar> * int (length rs) \<le> 2 ^ 53"
    and "(\<forall>r \<in> set rs. a r = k) \<or> (\<forall>r \<in> set rs. b r = k)"
  shows "pearson_f64 (map a rs) (map b rs) = None"
  using assms(2)
proof
  assume "\<forall>r \<in> set rs. a r = k"
  then have "nan_div_f64 (np_cov_f64 (to_float (map a rs)) (to_float (map b rs)))
               (nan_sqrt_f64 (np_cov_f64 (to_float (map a rs)) (to_float (map a rs)))) = None"
    using assms(1) by (intro nan_div_f64_zero np_cov_f64_constant)
  then show ?thesis by (simp add: pearson_f64_def nan_div_f64_None)
next
  assume "\<forall>r \<in> set rs. b r = k"
  then have "nan_div_f64 c (nan_sqrt_f64 (np_cov_f64 (to_float (map b rs)) (to_float (map b rs)))) = None"
    for c using assms(1) by (intro nan_div_f64_zero np_cov_f64_constant)
  then show ?thesis by (simp add: pearson_f64_def)
qed

lemma pearson_f64_range:
  assumes "pearson_f64 xs ys = Some c"
  shows "- 1 \<le> c \<and> c \<le> 1"
  using assms by (auto simp: pearson_f64_def np_clip_f64_def split: if_splits)

lemma np_cov_f64_commute:
  "length xs = length ys \<Longrightarrow> np_cov_f64 xs ys = np_cov_f64 ys xs"
proof -
  have "map (\<lambda>(x, y). f64 (x * y)) (zip us vs) = map (\<lambda>(x, y). f64 (x * y)) (zip vs us)"
    for us vs :: "rat list"
    by (subst zip_commute) (simp add: case_prod_beta mult.commute)
  then show "length xs = length ys \<Longrightarrow> np_cov_f64 xs ys = np_cov_f64 ys xs"
    by (simp add: np_cov_f64_def np_dot_f64_def)
qed

text \<open>
  The two orders of the arguments divide the same covariance by the same two standard
  deviations, in opposite orders.
\<close>

lemma pearson_f64_orders:
  "pearson_f64 (map a rs) (map b rs) =
     (if rs = [] then None
      else map_option (np_clip_f64 (-1) 1)
             (nan_div_f64
                (nan_div_f64 (np_cov_f64 (to_float (map a rs)) (to_float (map b rs)))
                             (nan_sqrt_f64 (np_cov_f64 (to_float (map a rs)) (to_float (map a rs)))))
                (nan_sqrt_f64 (np_cov_f64 (to_float (map b rs)) (to_float (map b rs))))))
   \<and> pearson_f64 (map b rs) (map a rs) =
     (if rs = [] then None
      else map_option (np_clip_f64 (-1) 1)
             (nan_div_f64
                (nan_div_f64 (np_cov_f64 (to_float (map a rs)) (to_float (map b rs)))
                             (nan_sqrt_f64 (np_cov_f64 (to_float (map b rs)) (to_float (map b rs)))))
                (nan_sqrt_f64 (np_cov_f64 (to_float (map a rs)) (to_float (map a rs))))))"
  using np_cov_f64_commute [of "to_float (map b rs)" "to_float (map a rs)"]
  by (simp add: pearson_f64_def to_float_def)

text \<open>
  Three patients who stay 1, 1 and 4 days and rate 3, 8 and 10: the averages, the
  covariances and the variances are floats, and only the square roots and the two
  quotients are rounded.
\<close>

lemma to_float_sample:
  "to_float [1, 1, 4] = [1, 1, 4] \<and> to_float [3, 8, 10] = [3, 8, 10]"
  by code_simp

lemma np_cov_f64_sample:
  "np_cov_f64 [1, 1, 4] [3, 8, 10] = Some (9 / 2)
   \<and> np_cov_f64 [1, 1, 4] [1, 1, 4] = Some 3
   \<and> np_cov_f64 [3, 8, 10] [3, 8, 10] = Some 13"
  by code_simp

lemma nan_sqrt_f64_sample:
  "nan_sqrt_f64 (Some 3) = Some (3900231685776981 / 2251799813685248)
   \<and> nan_sqrt_f64 (Some 13) = Some (8118979690322419 / 2251799813685248)"
  by code_simp

lemma nan_div_f64_sample:
  "nan_div_f64 (Some (9 / 2)) (Some (3900231685776981 / 2251799813685248))
     = Some (45705840067699 / 17592186044416)
   \<and> nan_div_f64 (Some (45705840067699 / 17592186044416)) (Some (8118979690322419 / 2251799813685248))
     = Some (6490377844273043 / 9007199254740992)
   \<and> nan_div_f64 (Some (9 / 2)) (Some (8118979690322419 / 2251799813685248))
     = Some (5620832093300137 / 4503599627370496)
   \<and> nan_div_f64 (Some (5620832093300137 / 4503599627370496)) (Some (3900231685776981 / 2251799813685248))
     = Some (1622594461068261 / 2251799813685248)"
  by code_simp

lemma pearson_f64_sample:
  "pearson_f64 [1, 1, 4] [3, 8, 10] = Some (6490377844273043 / 9007199254740992)
   \<and> pearson_f64 [3, 8, 10] [1, 1, 4] = Some (1622594461068261 / 2251799813685248)"
proof -
  have swapped: "np_cov_f64 [3, 8, 10] [1, 1, 4] = Some (9 / 2)"
    using np_cov_f64_commute [of "[3, 8, 10]" "[1, 1, 4]"] by (simp add: np_cov_f64_sample)
  show ?thesis
    apply (simp only: pearson_f64_def to_float_sample np_cov_f64_sample swapped
        nan_sqrt_f64_sample nan_div_f64_sample)
    apply (simp add: np_clip_f64_def)
    done
qed

text \<open>
  Claim C9, as the code has it. For any two integer columns \<open>a\<close> and \<open>b\<close> of the same
  rows: in exact arithmetic the Pearson correlation of \<open>a\<close> with \<open>b\<close> is that of \<open>b\<close>
  with \<open>a\<close>; in 64-bit floating point the two are computed from the same covariance and
  the same two standard deviations, which divide it in opposite orders; in exact
  arithmetic and in floating point alike, a correlation that is defined (not NaN) lies
  in \<open>[-1, 1]\<close>, and the correlation is NaN, not zero, when one of the two columns is
  constant (zero variance; in floating point for a constant \<open>k\<close> whose sum over the
  rows is an integer of at most 53 bits, so that the average is \<open>k\<close> itself). The
  script's correlation is the Pearson correlation of the length of stay with the
  satisfaction.
\<close>

theorem pearson_spec:
  "pearson (map a rs) (map b rs) = pearson (map b rs) (map a rs)
   \<and> (\<forall>c. pearson (map a rs) (map b rs) = Some c \<longrightarrow> - 1 \<le> c \<and> c \<le> 1)
   \<and> ((\<forall>r \<in> set rs. a r = k) \<or> (\<forall>r \<in> set rs. b r = k) \<longrightarrow>
        pearson (map a rs) (map b rs) = None)
   \<and> correlation f = pearson (map length_of_stay (rows f)) (map satisfaction (rows f))
   \<and> (let cov = np_cov_f64 (to_float (map a rs)) (to_float (map b rs));
            sa = nan_sqrt_f64 (np_cov_f64 (to_float (map a rs)) (to_float (map a rs)));
            sb = nan_sqrt_f64 (np_cov_f64 (to_float (map b rs)) (to_float (map b rs)))
        in pearson_f64 (map a rs) (map b rs) =
             (if rs = [] then None
              else map_option (np_clip_f64 (-1) 1) (nan_div_f64 (nan_div_f64 cov sa) sb))
           \<and> pearson_f64 (map b rs) (map a rs) =
             (if rs = [] then None
              else map_option (np_clip_f64 (-1) 1) (nan_div_f64 (nan_div_f64 cov sb) sa)))
   \<and> (\<forall>c. pearson_f64 (map a rs) (map b rs) = Some c \<longrightarrow> - 1 \<le> c \<and> c \<le> 1)
   \<and> (\<bar>k\<bar> * int (length rs) \<le> 2 ^ 53
        \<and> ((\<forall>r \<in> set rs. a r = k) \<or> (\<forall>r \<in> set rs. b r = k)) \<longrightarrow>
        pearson_f64 (map a rs) (map b rs) = None)"
proof (intro conjI allI impI)
  show "pearson (map a rs) (map b rs) = pearson (map b rs) (map a rs)"
    by (rule pearson_commute)
next
  fix c :: real assume "pearson (map a rs) (map b rs) = Some c"
  then show "- 1 \<le> c" and "c \<le> 1" using pearson_range by blast+
next
  assume "(\<forall>r \<in> set rs. a r = k) \<or> (\<forall>r \<in> set rs. b r = k)"
  then show "pearson (map a rs) (map b rs) = None"
  proof
    assume "\<forall>r \<in> set rs. a r = k"
    then show ?thesis by (rule pearson_constant_left)
  next
    assume "\<forall>r \<in> set rs. b r = k"
    then have "pearson (map b rs) (map a rs) = None" by (rule pearson_constant_left)
    then show ?thesis by (simp add: pearson_commute [of a rs b])
  qed
next
  show "correlation f = pearson (map length_of_stay (rows f)) (map satisfaction (rows f))"
    by (simp add: correlation_def)
next
  from pearson_f64_orders [of a rs b]
  show "let cov = np_cov_f64 (to_float (map a rs)) (to_float (map b rs));
            sa = nan_sqrt_f64 (np_cov_f64 (to_float (map a rs)) (to_float (map a rs)));
            sb = nan_sqrt_f64 (np_cov_f64 (to_float (map b rs)) (to_float (map b rs)))
        in pearson_f64 (map a rs) (map b rs) =
             (if rs = [] then None
              else map_option (np_clip_f64 (-1) 1) (nan_div_f64 (nan_div_f64 cov sa) sb))
           \<and> pearson_f64 (map b rs) (map a rs) =
             (if rs = [] then None
              else map_option (np_clip_f64 (-1) 1) (nan_div_f64 (nan_div_f64 cov sb) sa))"
    unfolding Let_def .
next
  fix c :: rat assume "pearson_f64 (map a rs) (map b rs) = Some c"
  then show "- 1 \<le> c" and "c \<le> 1" using pearson_f64_range by blast+
next
  assume "\<bar>k\<bar> * int (length rs) \<le> 2 ^ 53
        \<and> ((\<forall>r \<in> set rs. a r = k) \<or> (\<forall>r \<in> set rs. b r = k))"
  then show "pearson_f64 (map a rs) (map b rs) = None"
    using pearson_f64_constant [of k rs a b] by blast
qed

lemma pearson_sample: "pearson [1, 2, 3] [6, 4, 2] = Some (- 1)"
  by (simp add: pearson_def np_cov_def np_average_def nan_div_def nan_sqrt_def np_clip_def)

theorem pearson_spec_witness:
  "pearson [1, 2, 3] [6, 4, 2] = Some (- 1) \<and> pearson [6, 4, 2] [1, 2, 3] = Some (- 1)
   \<and> - 1 \<le> (- 1 :: real) \<and> (- 1 :: real) \<le> 1
   \<and> pearson [1, 2, 3] [5, 5, 5] = None
   \<and> pearson_f64 [1, 2, 3] [5, 5, 5] = None"
proof -
  let ?falling = "[(1, 6), (2, 4), (3, 2)] :: (int \<times> int) list"
  let ?flat = "[(1, 5), (2, 5), (3, 5)] :: (int \<times> int) list"
  from pearson_spec [of fst ?falling snd 0 sample_df]
  have "pearson (map fst ?falling) (map snd ?falling) = pearson (map snd ?falling) (map fst ?falling)"
    by blast
  then have s: "pearson [1, 2, 3] [6, 4, 2] = pearson [6, 4, 2] [1, 2, 3]" by simp
  have h: "\<forall>r \<in> set ?flat. snd r = (5 :: int)" by simp
  have m: "\<bar>5 :: int\<bar> * int (length ?flat) \<le> 2 ^ 53" by simp
  from h m pearson_spec [of fst ?flat snd 5 sample_df]
  have "pearson (map fst ?flat) (map snd ?flat) = None
      \<and> pearson_f64 (map fst ?flat) (map snd ?flat) = None"
    by blast
  then have c: "pearson [1, 2, 3] [5, 5, 5] = None \<and> pearson_f64 [1, 2, 3] [5, 5, 5] = None"
    by simp
  from s c pearson_sample show ?thesis by simp
qed

text \<open>
  Claim C9 as the specification states it fails in floating point: for three patients
  who stay 1, 1 and 4 days and rate 3, 8 and 10, the correlation of the stay with the
  rating is 0.7205766921228921 and the correlation of the rating with the stay is
  0.7205766921228922. The covariance 4.5 and the variances 3 and 13 are exact; the
  quotient by the root of 3 and then by the root of 13 is not the quotient by the root
  of 13 and then by the root of 3.
\<close>

theorem pearson_f64_counterexample:
  "pearson_f64 [1, 1, 4] [3, 8, 10] = Some (6490377844273043 / 9007199254740992)
   \<and> pearson_f64 [3, 8, 10] [1, 1, 4] = Some (1622594461068261 / 2251799813685248)
   \<and> pearson_f64 [1, 1, 4] [3, 8, 10] \<noteq> pearson_f64 [3, 8, 10] [1, 1, 4]"
  by (simp add: pearson_f64_sample)

subsection \<open>Calendar dates are read back as printed\<close>















subsection \<open>Export and reload\<close>




















subsection \<open>Runs with and without a cached load\<close>






end
